theory Spec2Isabelle
  imports Main
begin

section \<open>Values on the wire\<close>

text \<open>
  \<open>request.data\<close> is the request body after the framework's JSON parser: \<open>None\<close>,
  \<open>bool\<close>, \<open>int\<close>, \<open>float\<close>, \<open>str\<close>, \<open>list\<close> or \<open>dict\<close>. Python's \<open>str\<close> is
  modelled by \<open>string\<close>, so a text here is a sequence of code points below 256 and
  \<open>length\<close> counts what Python's \<open>len\<close> counts. A \<open>float\<close> is represented by the text
  \<open>str\<close> gives for it (\<open>25.0\<close>, \<open>25.5\<close>, \<open>1e+16\<close>): the serializer fields read a
  float through \<open>str(data)\<close> only. An \<open>int\<close> is one the parser delivers; on current
  Python versions a literal of more than 4300 digits fails in the parser, before a view
  sees the body.
\<close>

datatype json =
    JNull
  | JBool bool
  | JInt int
  | JFloat string
  | JStr string
  | JList "json list"
  | JObj "(string \<times> json) list"

subsection \<open>Python built-ins used by the serializer fields\<close>

definition is_space :: "char \<Rightarrow> bool" where
  \<comment> \<open>\<open>str.isspace\<close> on one code point below 256: TAB..CR, FS..US, SPACE, NEL, NBSP.\<close>
  "is_space c =
     (let n = (of_char c :: nat)
      in (9 \<le> n \<and> n \<le> 13) \<or> (28 \<le> n \<and> n \<le> 32) \<or> n = 133 \<or> n = 160)"

definition is_int_space :: "char \<Rightarrow> bool" where
  \<comment> \<open>The whitespace \<open>int\<close> skips around a numeral, on one code point below 256:
      TAB..CR, SPACE, NEL, NBSP. Unlike \<open>str.strip\<close>, it does not skip FS..US.\<close>
  "is_int_space c =
     (let n = (of_char c :: nat)
      in (9 \<le> n \<and> n \<le> 13) \<or> n = 32 \<or> n = 133 \<or> n = 160)"

definition is_digit :: "char \<Rightarrow> bool" where
  "is_digit c = (let n = (of_char c :: nat) in 48 \<le> n \<and> n \<le> 57)"

definition digit_value :: "char \<Rightarrow> nat" where
  "digit_value c = of_char c - 48"

definition strip :: "string \<Rightarrow> string" where
  \<comment> \<open>\<open>str.strip()\<close>: leading and trailing whitespace removed.\<close>
  "strip s = rev (dropWhile is_space (rev (dropWhile is_space s)))"

fun str_nat :: "nat \<Rightarrow> string" where
  "str_nat n =
     (if n < 10 then [char_of (48 + n)]
      else str_nat (n div 10) @ [char_of (48 + n mod 10)])"

definition str_int :: "int \<Rightarrow> string" where
  \<comment> \<open>\<open>str(i)\<close> for an \<open>int\<close>: decimal digits, with a leading minus sign when negative.\<close>
  "str_int i = (if i < 0 then CHR ''-'' # str_nat (nat (- i)) else str_nat (nat i))"

fun scan_digits :: "nat \<Rightarrow> string \<Rightarrow> nat option" where
  \<comment> \<open>The digits of \<open>int(s)\<close> after the first one: a single underscore may separate two digits.\<close>
  "scan_digits acc [] = Some acc"
| "scan_digits acc [c] = (if is_digit c then Some (acc * 10 + digit_value c) else None)"
| "scan_digits acc (c # d # ds) =
     (if is_digit c then scan_digits (acc * 10 + digit_value c) (d # ds)
      else if c = CHR ''_'' \<and> is_digit d then scan_digits (acc * 10 + digit_value d) ds
      else None)"

definition parse_digits :: "string \<Rightarrow> nat option" where
  "parse_digits s =
     (case s of
        [] \<Rightarrow> None
      | c # cs \<Rightarrow> if is_digit c then scan_digits (digit_value c) cs else None)"

definition py_int :: "string \<Rightarrow> int option" where
  \<comment> \<open>\<open>int(s)\<close> for a \<open>str\<close>, base 10; \<open>None\<close> stands for \<open>ValueError\<close>. Whitespace
      around the numeral is skipped, then comes an optional sign, then the digits.\<close>
  "py_int s =
     (case rev (dropWhile is_int_space (rev (dropWhile is_int_space s))) of
        [] \<Rightarrow> None
      | c # cs \<Rightarrow>
          if c = CHR ''-'' then map_option (\<lambda>n. - int n) (parse_digits cs)
          else if c = CHR ''+'' then map_option int (parse_digits cs)
          else map_option int (parse_digits (c # cs)))"

fun re_decimal_sub :: "string \<Rightarrow> string" where
  \<comment> \<open>\<open>re.compile(r'\.0*\s*$').sub('', s)\<close>: a final \<open>.\<close> followed only by zeros and then
      only by whitespace is cut off.\<close>
  "re_decimal_sub [] = []"
| "re_decimal_sub (c # cs) =
     (if c = CHR ''.'' \<and> dropWhile is_space (dropWhile (\<lambda>x. x = CHR ''0'') cs) = [] then []
      else c # re_decimal_sub cs)"

section \<open>The model and its store (models.py)\<close>

text \<open>
  \<open>class User(models.Model)\<close> declares \<open>age = IntegerField()\<close> and
  \<open>name = CharField(max_length=100)\<close>, in this order; the framework adds the
  automatic primary key \<open>id\<close> in front (\<open>id_pk\<close> below, as \<open>id\<close> is taken).
\<close>

record user =
  id_pk :: int
  age :: int
  name :: string

text \<open>
  Modelled from the spec: the persistence engine behind \<open>User.objects\<close> is not part of
  the repository; section 6 describes it as durable single-table storage with
  auto-incrementing integer keys and basic create, read, update and delete primitives.
  The table is its rows in the store's own order, the last key the sequence handed out,
  and the range the database backend accepts for an integer column
  (\<open>connection.ops.integer_field_range\<close>), which the project settings choose and which
  is therefore left open. \<open>id\<close> is the primary key, so a lookup by id has at most one
  row to find in any table the engine can hold (\<open>store_inv\<close> below).
\<close>

record store =
  rows :: "user list"
  seq :: int
  int_min :: int
  int_max :: int

definition objects_all :: "store \<Rightarrow> user list" where
  "objects_all st = rows st"

definition objects_get :: "store \<Rightarrow> int \<Rightarrow> user option" where
  \<comment> \<open>\<open>User.objects.get(id=user_id)\<close>; \<open>None\<close> stands for \<open>User.DoesNotExist\<close>.\<close>
  "objects_get st user_id = find (\<lambda>u. id_pk u = user_id) (rows st)"

definition objects_create :: "store \<Rightarrow> int \<Rightarrow> string \<Rightarrow> store \<times> user" where
  \<comment> \<open>\<open>User.objects.create(age=a, name=n)\<close>: the row gets the next key.\<close>
  "objects_create st a n =
     (let u = \<lparr>id_pk = seq st + 1, age = a, name = n\<rparr>
      in (st\<lparr>rows := rows st @ [u], seq := seq st + 1\<rparr>, u))"

definition instance_save :: "store \<Rightarrow> user \<Rightarrow> store" where
  \<comment> \<open>\<open>instance.save()\<close> on a row that was read from the table: updated where the key is.\<close>
  "instance_save st u =
     st\<lparr>rows := map (\<lambda>r. if id_pk r = id_pk u then u else r) (rows st)\<rparr>"

definition instance_delete :: "store \<Rightarrow> user \<Rightarrow> store" where
  \<comment> \<open>\<open>user.delete()\<close>.\<close>
  "instance_delete st u = st\<lparr>rows := filter (\<lambda>r. id_pk r \<noteq> id_pk u) (rows st)\<rparr>"

definition store_inv :: "store \<Rightarrow> bool" where
  \<comment> \<open>The data-model invariant: keys are unique and were handed out by the store; every
      row has a name of 1 to 100 characters and an age the integer column can hold.\<close>
  "store_inv st =
     (0 \<le> seq st \<and> distinct (map id_pk (rows st)) \<and>
      list_all (\<lambda>u. 1 \<le> id_pk u \<and> id_pk u \<le> seq st \<and>
                     name u \<noteq> [] \<and> length (name u) \<le> 100 \<and>
                     int_min st \<le> age u \<and> age u \<le> int_max st) (rows st))"

section \<open>The serializer (serializer.py)\<close>

text \<open>
  \<open>UserSerializer\<close> is a \<open>ModelSerializer\<close> with \<open>fields = '__all__'\<close>. From
  models.py the framework derives the fields \<open>id\<close> (read-only), \<open>age\<close>
  (\<open>IntegerField\<close>, required, \<open>min_value\<close> and \<open>max_value\<close> from the backend's
  range) and \<open>name\<close> (\<open>CharField\<close>, required, \<open>max_length=100\<close>, not blank,
  whitespace trimmed), in this order. The field classes are the framework's
  (\<open>rest_framework.fields\<close>); the definitions follow their \<open>run_validation\<close>,
  \<open>to_internal_value\<close> and \<open>run_validators\<close> for these keyword arguments. A
  validation error is represented by the error code the framework attaches to it.
\<close>

datatype error_code =
    required
  | null
  | invalid
  | blank
  | max_length
  | min_value
  | max_value
  | max_string_length
  | null_characters_not_allowed
  | method_not_allowed
  | server_error

definition to_representation :: "user \<Rightarrow> json" where
  "to_representation u =
     JObj [(''id'', JInt (id_pk u)), (''age'', JInt (age u)), (''name'', JStr (name u))]"

definition age_validators :: "store \<Rightarrow> int \<Rightarrow> error_code list + int" where
  "age_validators st i =
     (let errs = (if int_max st < i then [max_value] else []) @
                 (if i < int_min st then [min_value] else [])
      in if errs = [] then Inr i else Inl errs)"

definition age_to_internal_value :: "json \<Rightarrow> error_code list + int" where
  \<comment> \<open>\<open>IntegerField.to_internal_value\<close>: \<open>int(re_decimal.sub('', str(data)))\<close>.\<close>
  "age_to_internal_value v =
     (case v of
        JInt i \<Rightarrow> Inr i
      | JFloat r \<Rightarrow>
          (case py_int (re_decimal_sub r) of None \<Rightarrow> Inl [invalid] | Some i \<Rightarrow> Inr i)
      | JStr s \<Rightarrow>
          if 1000 < length s then Inl [max_string_length]
          else (case py_int (re_decimal_sub s) of None \<Rightarrow> Inl [invalid] | Some i \<Rightarrow> Inr i)
      | _ \<Rightarrow> Inl [invalid])"

definition age_run_validation :: "store \<Rightarrow> json option \<Rightarrow> error_code list + int" where
  "age_run_validation st data =
     (case data of
        None \<Rightarrow> Inl [required]
      | Some JNull \<Rightarrow> Inl [null]
      | Some v \<Rightarrow>
          (case age_to_internal_value v of
             Inl errs \<Rightarrow> Inl errs
           | Inr i \<Rightarrow> age_validators st i))"

definition name_validators :: "string \<Rightarrow> error_code list + string" where
  "name_validators s =
     (let errs = (if 100 < length s then [max_length] else []) @
                 (if CHR 0x00 \<in> set s then [null_characters_not_allowed] else [])
      in if errs = [] then Inr s else Inl errs)"

definition name_run_validation :: "json option \<Rightarrow> error_code list + string" where
  \<comment> \<open>\<open>CharField.run_validation\<close>: the blank test comes first, then required and null,
      then \<open>to_internal_value\<close> (\<open>str(data).strip()\<close> for a \<open>str\<close>, an \<open>int\<close> or a
      \<open>float\<close>), then the validators.\<close>
  "name_run_validation data =
     (case data of
        None \<Rightarrow> Inl [required]
      | Some JNull \<Rightarrow> Inl [null]
      | Some (JStr s) \<Rightarrow> if strip s = [] then Inl [blank] else name_validators (strip s)
      | Some (JInt i) \<Rightarrow> name_validators (strip (str_int i))
      | Some (JFloat r) \<Rightarrow> if strip r = [] then Inl [blank] else name_validators (strip r)
      | Some _ \<Rightarrow> Inl [invalid])"

definition is_valid :: "store \<Rightarrow> json \<Rightarrow> (string \<times> error_code list) list + (int \<times> string)" where
  \<comment> \<open>\<open>serializer.is_valid()\<close>: \<open>Inl\<close> is \<open>serializer.errors\<close>, \<open>Inr\<close> is
      \<open>serializer.validated_data\<close> as (age, name). The writable fields are run in order
      and every failing one contributes its key.\<close>
  "is_valid st data =
     (case data of
        JObj items \<Rightarrow>
          (case (age_run_validation st (map_of items ''age''),
                 name_run_validation (map_of items ''name'')) of
             (Inr a, Inr n) \<Rightarrow> Inr (a, n)
           | (Inl ea, Inr n) \<Rightarrow> Inl [(''age'', ea)]
           | (Inr a, Inl en) \<Rightarrow> Inl [(''name'', en)]
           | (Inl ea, Inl en) \<Rightarrow> Inl [(''age'', ea), (''name'', en)])
      | JNull \<Rightarrow> Inl [(''non_field_errors'', [null])]
      | _ \<Rightarrow> Inl [(''non_field_errors'', [invalid])])"

definition serializer_create :: "store \<Rightarrow> int \<times> string \<Rightarrow> store \<times> user" where
  \<comment> \<open>\<open>serializer.save()\<close> without an instance.\<close>
  "serializer_create st validated_data =
     objects_create st (fst validated_data) (snd validated_data)"

definition serializer_update :: "store \<Rightarrow> user \<Rightarrow> int \<times> string \<Rightarrow> store \<times> user" where
  \<comment> \<open>\<open>serializer.save()\<close> with an instance: every validated field is set on it, then
      it is saved. The key is not among the validated fields.\<close>
  "serializer_update st instance validated_data =
     (let u = instance\<lparr>age := fst validated_data, name := snd validated_data\<rparr>
      in (instance_save st u, u))"

section \<open>Requests, responses and the views (views.py)\<close>

record request = "method" :: string
  data :: json

text \<open>
  What a \<open>Response\<close> carries: nothing (\<open>Response(status=...)\<close>, an empty body),
  \<open>serializer.data\<close>, \<open>serializer.errors\<close> (field name to list of errors), the
  framework's \<open>{'detail': ...}\<close> of an error it answers itself, or the description of
  the view that answers \<open>OPTIONS\<close>.
\<close>

datatype content =
    NoData
  | Data json
  | Errors "(string \<times> error_code list) list"
  | Detail error_code
  | Metadata

datatype response = Response (rdata: content) (status: nat)

definition HTTP_200_OK :: nat where "HTTP_200_OK = 200"
definition HTTP_201_CREATED :: nat where "HTTP_201_CREATED = 201"
definition HTTP_204_NO_CONTENT :: nat where "HTTP_204_NO_CONTENT = 204"
definition HTTP_400_BAD_REQUEST :: nat where "HTTP_400_BAD_REQUEST = 400"
definition HTTP_404_NOT_FOUND :: nat where "HTTP_404_NOT_FOUND = 404"
definition HTTP_405_METHOD_NOT_ALLOWED :: nat where "HTTP_405_METHOD_NOT_ALLOWED = 405"
definition HTTP_500_INTERNAL_SERVER_ERROR :: nat where "HTTP_500_INTERNAL_SERVER_ERROR = 500"

text \<open>
  \<open>@api_view(http_method_names)\<close> is the framework's decorator
  (\<open>rest_framework.decorators\<close>). The wrapped view allows
  \<open>set(http_method_names) | {'options'}\<close>: a request whose method is among the names
  runs the function, \<open>OPTIONS\<close> is answered with the view's metadata, and every other
  method is answered by \<open>http_method_not_allowed\<close>. A function that returns \<open>None\<close>
  instead of a response fails the framework's assertion. \<open>request.method\<close> is the
  method in upper case.
\<close>

definition api_view ::
  "string list \<Rightarrow> (store \<Rightarrow> request \<Rightarrow> store \<times> response option) \<Rightarrow>
   store \<Rightarrow> request \<Rightarrow> store \<times> response" where
  "api_view http_method_names func st req =
     (if method req \<in> set http_method_names then
        (case func st req of
           (st', Some resp) \<Rightarrow> (st', resp)
         | (st', None) \<Rightarrow> (st', Response (Detail server_error) HTTP_500_INTERNAL_SERVER_ERROR))
      else if method req = ''OPTIONS'' then (st, Response Metadata HTTP_200_OK)
      else (st, Response (Detail method_not_allowed) HTTP_405_METHOD_NOT_ALLOWED))"

text \<open>
  Each view is the function as written (\<open>_func\<close>) under its decorator. The function
  takes the store and the request and returns the store and what it returned:
  a response, or \<open>None\<close> where the function body ends without a \<open>return\<close>.
\<close>

definition get_users_func :: "store \<Rightarrow> request \<Rightarrow> store \<times> response option" where
  "get_users_func st req =
     (let users = objects_all st
      in (st, Some (Response (Data (JList (map to_representation users))) HTTP_200_OK)))"

definition get_users :: "store \<Rightarrow> request \<Rightarrow> store \<times> response" where
  "get_users = api_view [''GET''] get_users_func"

definition create_user_func :: "store \<Rightarrow> request \<Rightarrow> store \<times> response option" where
  "create_user_func st req =
     (case is_valid st (data req) of
        Inr validated_data \<Rightarrow>
          (let (st', u) = serializer_create st validated_data
           in (st', Some (Response (Data (to_representation u)) HTTP_201_CREATED)))
      | Inl errors \<Rightarrow> (st, Some (Response (Errors errors) HTTP_400_BAD_REQUEST)))"

definition create_user :: "store \<Rightarrow> request \<Rightarrow> store \<times> response" where
  "create_user = api_view [''POST''] create_user_func"

definition user_detail_func :: "int \<Rightarrow> store \<Rightarrow> request \<Rightarrow> store \<times> response option" where
  "user_detail_func user_id st req =
     (case objects_get st user_id of
        None \<Rightarrow> (st, Some (Response NoData HTTP_404_NOT_FOUND))
      | Some user \<Rightarrow>
          if method req = ''GET'' then
            (st, Some (Response (Data (to_representation user)) HTTP_200_OK))
          else if method req = ''PUT'' then
            (case is_valid st (data req) of
               Inr validated_data \<Rightarrow>
                 (let (st', u) = serializer_update st user validated_data
                  in (st', Some (Response (Data (to_representation u)) HTTP_200_OK)))
             | Inl errors \<Rightarrow> (st, Some (Response (Errors errors) HTTP_400_BAD_REQUEST)))
          else if method req = ''DELETE'' then
            (instance_delete st user, Some (Response NoData HTTP_204_NO_CONTENT))
          else (st, None))"

definition user_detail :: "store \<Rightarrow> request \<Rightarrow> int \<Rightarrow> store \<times> response" where
  "user_detail st req user_id =
     api_view [''GET'', ''PUT'', ''DELETE''] (user_detail_func user_id) st req"

section \<open>Routing (urls.py)\<close>

text \<open>
  The three patterns under \<open>api/\<close>. The converter of \<open>users/<int:user_id>/\<close> matches
  decimal digits only, so the view receives a non-negative integer.
\<close>

datatype path = Users | UsersCreate | UsersDetail nat

definition urlpatterns :: "path \<Rightarrow> store \<Rightarrow> request \<Rightarrow> store \<times> response" where
  "urlpatterns p st req =
     (case p of
        Users \<Rightarrow> get_users st req
      | UsersCreate \<Rightarrow> create_user st req
      | UsersDetail n \<Rightarrow> user_detail st req (int n))"

section \<open>Reading a response\<close>

definition response_id :: "response \<Rightarrow> int option" where
  \<comment> \<open>\<open>response.data['id']\<close>, as the API tests read it.\<close>
  "response_id resp =
     (case rdata resp of
        Data (JObj items) \<Rightarrow>
          (case map_of items ''id'' of Some (JInt i) \<Rightarrow> Some i | _ \<Rightarrow> None)
      | _ \<Rightarrow> None)"

definition body_field :: "json \<Rightarrow> string \<Rightarrow> json option" where
  \<comment> \<open>The value a request body gives to a field, if the body is an object that has it.\<close>
  "body_field body k = (case body of JObj items \<Rightarrow> map_of items k | _ \<Rightarrow> None)"

section \<open>Acceptance conditions\<close>









section \<open>Example states\<close>

text \<open>
  An empty table and the table of the scenario with the two users (A, 1) and (B, 2),
  both on a backend with 64-bit integer columns.
\<close>

definition empty_store :: store where
  "empty_store =
     \<lparr>rows = [], seq = 0, int_min = - 9223372036854775808, int_max = 9223372036854775807\<rparr>"

definition created_store :: store where
  \<comment> \<open>The seeded table after a third user (C, 3) was created.\<close>
  "created_store =
     \<lparr>rows = [\<lparr>id_pk = 1, age = 1, name = ''A''\<rparr>, \<lparr>id_pk = 2, age = 2, name = ''B''\<rparr>,
              \<lparr>id_pk = 3, age = 3, name = ''C''\<rparr>],
      seq = 3, int_min = - 9223372036854775808, int_max = 9223372036854775807\<rparr>"

definition seeded_store :: store where
  "seeded_store =
     \<lparr>rows = [\<lparr>id_pk = 1, age = 1, name = ''A''\<rparr>, \<lparr>id_pk = 2, age = 2, name = ''B''\<rparr>],
      seq = 2, int_min = - 9223372036854775808, int_max = 9223372036854775807\<rparr>"

section \<open>Example requests\<close>

text \<open>
  The requests of the API tests and of the scenario. The body of \<open>put_request\<close> also
  carries an \<open>id\<close> that differs from the one in the URL.
\<close>

definition get_request :: request where
  "get_request = \<lparr>method = ''GET'', data = JNull\<rparr>"

definition delete_request :: request where
  "delete_request = \<lparr>method = ''DELETE'', data = JNull\<rparr>"

definition post_request :: request where
  "post_request = \<lparr>method = ''POST'', data = JObj [(''name'', JStr ''C''), (''age'', JInt 3)]\<rparr>"

definition put_request :: request where
  "put_request =
     \<lparr>method = ''PUT'',
      data = JObj [(''id'', JInt 99), (''name'', JStr ''Updated User''), (''age'', JInt 26)]\<rparr>"

definition invalid_post :: request where
  "invalid_post =
     \<lparr>method = ''POST'', data = JObj [(''name'', JStr ''''), (''age'', JStr ''invalid'')]\<rparr>"

definition invalid_put :: request where
  "invalid_put =
     \<lparr>method = ''PUT'', data = JObj [(''name'', JStr ''''), (''age'', JStr ''invalid'')]\<rparr>"

definition patch_request :: request where
  "patch_request = \<lparr>method = ''PATCH'', data = JNull\<rparr>"


definition separators_put :: request where
  \<comment> \<open>The same body in a PUT.\<close>
  "separators_put =
     \<lparr>method = ''PUT'',
      data = JObj [(''name'', JStr ''A''), (''age'', JStr [CHR 0x1C, CHR ''7'', CHR 0x1F])]\<rparr>"


section \<open>Basic facts\<close>

lemmas status_defs =
  HTTP_200_OK_def HTTP_201_CREATED_def HTTP_204_NO_CONTENT_def HTTP_400_BAD_REQUEST_def
  HTTP_404_NOT_FOUND_def HTTP_405_METHOD_NOT_ALLOWED_def HTTP_500_INTERNAL_SERVER_ERROR_def

declare str_nat.simps [simp del]

subsection \<open>Looking a row up\<close>

lemma objects_get_None: "objects_get st i = None \<longleftrightarrow> i \<notin> id_pk ` set (rows st)"
  by (auto simp: objects_get_def find_None_iff)

lemma objects_get_Some: "objects_get st i = Some u \<Longrightarrow> id_pk u = i \<and> u \<in> set (rows st)"
  by (auto simp: objects_get_def find_Some_iff)

lemma objects_get_present:
  "i \<in> id_pk ` set (rows st) \<Longrightarrow> \<exists>u. objects_get st i = Some u \<and> id_pk u = i \<and> u \<in> set (rows st)"
  by (cases "objects_get st i") (auto simp: objects_get_None dest: objects_get_Some)

lemma find_appended:
  "\<forall>x \<in> set xs. \<not> P x \<Longrightarrow> P y \<Longrightarrow> find P (xs @ [y]) = Some y"
  by (induction xs) auto

lemma length_filter_distinct_key:
  "distinct (map f xs) \<Longrightarrow> k \<in> f ` set xs \<Longrightarrow>
   length (filter (\<lambda>r. f r \<noteq> k) xs) + 1 = length xs"
proof (induction xs)
  case Nil
  then show ?case by simp
next
  case (Cons x xs)
  show ?case
  proof (cases "f x = k")
    case True
    with Cons.prems have "k \<notin> f ` set xs" by auto
    then have "filter (\<lambda>r. f r \<noteq> k) xs = xs"
      by (auto simp: filter_id_conv)
    with True show ?thesis by simp
  next
    case False
    with Cons show ?thesis by auto
  qed
qed

lemma map_id_pk_update:
  "map id_pk (map (\<lambda>r. if id_pk r = i then \<lparr>id_pk = i, age = a, name = n\<rparr> else r) xs) =
   map id_pk xs"
  by (induction xs) auto

lemma store_inv_fresh: "store_inv st \<Longrightarrow> seq st + 1 \<notin> id_pk ` set (rows st)"
  by (auto simp: store_inv_def list_all_iff)

subsection \<open>Text and numbers\<close>

lemma is_digit_not_space: "is_digit c \<Longrightarrow> \<not> is_space c"
  by (auto simp: is_digit_def is_space_def Let_def)

lemma is_digit_char_of: "d < 10 \<Longrightarrow> is_digit (char_of (48 + d :: nat))"
  by (simp add: is_digit_def)

lemma str_nat_digits: "str_nat n \<noteq> [] \<and> (\<forall>c \<in> set (str_nat n). is_digit c)"
proof (induction n rule: str_nat.induct)
  case (1 n)
  show ?case
  proof (cases "n < 10")
    case True
    then show ?thesis
      by (subst (1 2) str_nat.simps) (simp add: is_digit_char_of)
  next
    case False
    with 1 show ?thesis
      by (subst (1 2) str_nat.simps) (simp add: is_digit_char_of)
  qed
qed

lemma strip_no_space_ends:
  "s \<noteq> [] \<Longrightarrow> \<not> is_space (hd s) \<Longrightarrow> \<not> is_space (last s) \<Longrightarrow> strip s = s"
proof -
  assume a: "s \<noteq> []" "\<not> is_space (hd s)" "\<not> is_space (last s)"
  have 1: "dropWhile is_space s = s"
    using a(1,2) by (cases s) simp_all
  have 2: "dropWhile is_space (rev s) = rev s"
    using a(1,3) by (cases "rev s") (simp_all add: last_rev [symmetric] hd_rev)
  show ?thesis by (simp add: strip_def 1 2)
qed

lemma minus_not_space: "\<not> is_space CHR ''-''"
  by (simp add: is_space_def)

lemma strip_str_int: "strip (str_int i) = str_int i \<and> str_int i \<noteq> []"
proof -
  have ne: "str_nat n \<noteq> []" and hd: "\<not> is_space (hd (str_nat n))"
    and lst: "\<not> is_space (last (str_nat n))" for n
    using str_nat_digits [of n] is_digit_not_space
    by (auto simp: hd_in_set last_in_set)
  show ?thesis
    by (auto simp: str_int_def intro!: strip_no_space_ends simp: ne hd lst minus_not_space)
qed

subsection \<open>Reading numerals\<close>

lemma py_int_separators: "py_int [CHR 0x1C, CHR ''7'', CHR 0x1F] = None"
  by code_simp














subsection \<open>What the fields accept\<close>

lemma name_validators_Inr:
  "name_validators s = Inr n \<longleftrightarrow> n = s \<and> length s \<le> 100 \<and> CHR 0x00 \<notin> set s"
  by (auto simp: name_validators_def Let_def)



lemma name_run_validation_range:
  assumes "name_run_validation v = Inr n"
  shows "n \<noteq> [] \<and> length n \<le> 100"
proof (cases v)
  case None
  with assms show ?thesis by (simp add: name_run_validation_def)
next
  case (Some j)
  with assms show ?thesis
    by (cases j)
      (auto simp: name_run_validation_def name_validators_Inr strip_str_int split: if_splits)
qed






lemma age_validators_Inr:
  "age_validators st i = Inr a \<longleftrightarrow> a = i \<and> int_min st \<le> i \<and> i \<le> int_max st"
  by (auto simp: age_validators_def Let_def)




lemma age_run_validation_range:
  assumes "age_run_validation st v = Inr a"
  shows "int_min st \<le> a \<and> a \<le> int_max st"
  using assms
  by (auto simp: age_run_validation_def age_validators_Inr
      split: option.splits json.splits sum.splits)



lemma is_valid_Inr:
  "is_valid st body = Inr (a, n) \<longleftrightarrow>
     age_run_validation st (body_field body ''age'') = Inr a \<and>
     name_run_validation (body_field body ''name'') = Inr n"
  by (cases body)
    (auto simp: is_valid_def body_field_def age_run_validation_def name_run_validation_def
      split: sum.splits)

lemma is_valid_range:
  assumes "is_valid st body = Inr (a, n)"
  shows "n \<noteq> [] \<and> length n \<le> 100 \<and> int_min st \<le> a \<and> a \<le> int_max st"
  using assms name_run_validation_range age_run_validation_range
  by (auto simp: is_valid_Inr)



subsection \<open>What the views do to the store\<close>

lemma user_detail_func_not_found:
  "objects_get st user_id = None \<Longrightarrow>
   user_detail_func user_id st req = (st, Some (Response NoData 404))"
  by (simp add: user_detail_func_def HTTP_404_NOT_FOUND_def)

lemma create_user_valid:
  assumes "method req = ''POST''" and "is_valid st (data req) = Inr (a, n)"
  shows "create_user st req =
           (st\<lparr>rows := rows st @ [\<lparr>id_pk = seq st + 1, age = a, name = n\<rparr>], seq := seq st + 1\<rparr>,
            Response (Data (JObj [(''id'', JInt (seq st + 1)), (''age'', JInt a),
                                  (''name'', JStr n)])) 201)"
  using assms
  by (simp add: create_user_def api_view_def create_user_func_def serializer_create_def
      objects_create_def to_representation_def HTTP_201_CREATED_def Let_def)

lemma get_users_store: "fst (get_users st req) = st"
  by (simp add: get_users_def api_view_def get_users_func_def)

lemma create_user_store:
  "fst (create_user st req) = st \<or>
   (\<exists>a n. is_valid st (data req) = Inr (a, n) \<and>
      fst (create_user st req) =
        st\<lparr>rows := rows st @ [\<lparr>id_pk = seq st + 1, age = a, name = n\<rparr>], seq := seq st + 1\<rparr>)"
  by (cases "is_valid st (data req)")
    (auto simp: create_user_def api_view_def create_user_func_def serializer_create_def
      objects_create_def Let_def)

lemma user_detail_store:
  "fst (user_detail st req user_id) = st \<or>
   (\<exists>a n. method req = ''PUT'' \<and> user_id \<in> id_pk ` set (rows st) \<and>
      is_valid st (data req) = Inr (a, n) \<and>
      fst (user_detail st req user_id) =
        st\<lparr>rows := map (\<lambda>r. if id_pk r = user_id
                              then \<lparr>id_pk = user_id, age = a, name = n\<rparr> else r) (rows st)\<rparr>) \<or>
   (method req = ''DELETE'' \<and>
      fst (user_detail st req user_id) =
        st\<lparr>rows := filter (\<lambda>r. id_pk r \<noteq> user_id) (rows st)\<rparr>)"
proof (cases "objects_get st user_id")
  case None
  then show ?thesis
    by (simp add: user_detail_def api_view_def user_detail_func_def)
next
  case (Some u)
  then have u: "id_pk u = user_id" "user_id \<in> id_pk ` set (rows st)"
    using objects_get_Some by force+
  have upd: "u\<lparr>age := a, name := n\<rparr> = \<lparr>id_pk = user_id, age = a, name = n\<rparr>" for a n
    using u(1) by simp
  show ?thesis
  proof (cases "is_valid st (data req)")
    case (Inl errs)
    with Some u show ?thesis
      by (simp add: user_detail_def api_view_def user_detail_func_def instance_delete_def)
  next
    case (Inr v)
    obtain a n where v: "v = (a, n)" by (cases v)
    with Some u Inr upd show ?thesis
      by (simp add: user_detail_def api_view_def user_detail_func_def instance_delete_def
          serializer_update_def instance_save_def Let_def)
  qed
qed

lemma store_inv_create:
  assumes "store_inv st" and "is_valid st body = Inr (a, n)"
  shows "store_inv (st\<lparr>rows := rows st @ [\<lparr>id_pk = seq st + 1, age = a, name = n\<rparr>],
                       seq := seq st + 1\<rparr>)"
proof -
  have fresh: "seq st + 1 \<notin> id_pk ` set (rows st)"
    using assms(1) by (auto simp: store_inv_def list_all_iff)
  have new: "n \<noteq> [] \<and> length n \<le> 100 \<and> int_min st \<le> a \<and> a \<le> int_max st"
    using assms(2) by (rule is_valid_range)
  show ?thesis
    using assms(1) fresh new by (auto simp: store_inv_def list_all_iff)
qed

lemma store_inv_update:
  assumes "store_inv st" and "is_valid st body = Inr (a, n)"
    and "user_id \<in> id_pk ` set (rows st)"
  shows "store_inv (st\<lparr>rows := map (\<lambda>r. if id_pk r = user_id
                                       then \<lparr>id_pk = user_id, age = a, name = n\<rparr> else r)
                                 (rows st)\<rparr>)"
proof -
  have new: "n \<noteq> [] \<and> length n \<le> 100 \<and> int_min st \<le> a \<and> a \<le> int_max st"
    using assms(2) by (rule is_valid_range)
  have key: "1 \<le> user_id \<and> user_id \<le> seq st"
    using assms(1,3) by (auto simp: store_inv_def list_all_iff)
  have ids: "distinct (map id_pk (map (\<lambda>r. if id_pk r = user_id
      then \<lparr>id_pk = user_id, age = a, name = n\<rparr> else r) (rows st)))"
    using assms(1) by (simp only: map_id_pk_update) (simp add: store_inv_def)
  show ?thesis
    using assms(1) new key ids by (auto simp: store_inv_def list_all_iff)
qed

lemma store_inv_delete:
  assumes "store_inv st"
  shows "store_inv (st\<lparr>rows := filter (\<lambda>r. id_pk r \<noteq> user_id) (rows st)\<rparr>)"
  using assms by (auto simp: store_inv_def list_all_iff distinct_map_filter)

subsection \<open>The example states and requests\<close>

lemma empty_store_inv: "store_inv empty_store"
  by code_simp

lemma seeded_store_inv: "store_inv seeded_store"
  by code_simp

lemma post_request_valid: "is_valid seeded_store (data post_request) = Inr (3, ''C'')"
  by code_simp

lemma put_request_valid: "is_valid seeded_store (data put_request) = Inr (26, ''Updated User'')"
  by code_simp

lemma invalid_body_errors:
  "is_valid seeded_store (data invalid_post) = Inl [(''age'', [invalid]), (''name'', [blank])]"
  "is_valid seeded_store (data invalid_put) = Inl [(''age'', [invalid]), (''name'', [blank])]"
  by code_simp+

section \<open>Validation of a new user\<close>




section \<open>Create, then read\<close>

text \<open>
  C2. For every body that validation accepts, with validated age and name, a POST on
  the create endpoint answers 201 with the object made of the generated id, that age and
  that name; the id read from this response is the generated one, and a GET on the
  detail endpoint of that id, on the store the POST left, answers 200 with exactly the
  same object and changes nothing.
\<close>

theorem post_then_get_same_object:
  assumes "store_inv st"
    and "method req = ''POST''"
    and "is_valid st (data req) = Inr (a, n)"
    and "method get = ''GET''"
  shows "snd (create_user st req) =
           Response (Data (JObj [(''id'', JInt (seq st + 1)), (''age'', JInt a),
                                 (''name'', JStr n)])) 201 \<and>
         response_id (snd (create_user st req)) = Some (seq st + 1) \<and>
         0 \<le> seq st + 1 \<and>
         urlpatterns (UsersDetail (nat (seq st + 1))) (fst (create_user st req)) get =
           (fst (create_user st req),
            Response (Data (JObj [(''id'', JInt (seq st + 1)), (''age'', JInt a),
                                  (''name'', JStr n)])) 200)"
proof -
  let ?u = "\<lparr>id_pk = seq st + 1, age = a, name = n\<rparr>"
  let ?st' = "st\<lparr>rows := rows st @ [?u], seq := seq st + 1\<rparr>"
  let ?body = "JObj [(''id'', JInt (seq st + 1)), (''age'', JInt a), (''name'', JStr n)]"
  have post: "create_user st req = (?st', Response (Data ?body) 201)"
    using assms(2,3) by (rule create_user_valid)
  have nonneg: "0 \<le> seq st + 1"
    using assms(1) by (simp add: store_inv_def)
  have "\<forall>r \<in> set (rows st). \<not> id_pk r = seq st + 1"
    using store_inv_fresh [OF assms(1)] by (metis imageI)
  then have found: "objects_get ?st' (seq st + 1) = Some ?u"
    by (simp add: objects_get_def find_appended)
  have get: "user_detail ?st' get (seq st + 1) = (?st', Response (Data ?body) 200)"
    using found assms(4)
    by (simp add: user_detail_def api_view_def user_detail_func_def to_representation_def
        HTTP_200_OK_def)
  have id: "response_id (snd (create_user st req)) = Some (seq st + 1)"
    by (simp add: post response_id_def)
  have "urlpatterns (UsersDetail (nat (seq st + 1))) (fst (create_user st req)) get =
      (fst (create_user st req), Response (Data ?body) 200)"
    using nonneg get by (simp add: post urlpatterns_def)
  with id nonneg show ?thesis
    by (simp add: post)
qed

theorem post_then_get_same_object_witness:
  "store_inv seeded_store \<and> method post_request = ''POST'' \<and>
   is_valid seeded_store (data post_request) = Inr (3, ''C'') \<and> method get_request = ''GET'' \<and>
   create_user seeded_store post_request =
     (created_store,
      Response (Data (JObj [(''id'', JInt 3), (''age'', JInt 3), (''name'', JStr ''C'')])) 201) \<and>
   urlpatterns (UsersDetail 3) created_store get_request =
     (created_store,
      Response (Data (JObj [(''id'', JInt 3), (''age'', JInt 3), (''name'', JStr ''C'')])) 200)"
proof -
  have p: "method post_request = ''POST''" by (simp add: post_request_def)
  have g: "method get_request = ''GET''" by (simp add: get_request_def)
  have k: "seq seeded_store + 1 = 3" by (simp add: seeded_store_def)
  have c: "create_user seeded_store post_request =
      (created_store,
       Response (Data (JObj [(''id'', JInt 3), (''age'', JInt 3), (''name'', JStr ''C'')])) 201)"
    by code_simp
  from post_then_get_same_object [OF seeded_store_inv p post_request_valid g]
  have "urlpatterns (UsersDetail (nat 3)) (fst (create_user seeded_store post_request))
      get_request =
      (fst (create_user seeded_store post_request),
       Response (Data (JObj [(''id'', JInt 3), (''age'', JInt 3), (''name'', JStr ''C'')])) 200)"
    by (simp add: k)
  then have "urlpatterns (UsersDetail 3) created_store get_request =
      (created_store,
       Response (Data (JObj [(''id'', JInt 3), (''age'', JInt 3), (''name'', JStr ''C'')])) 200)"
    by (simp add: c)
  with seeded_store_inv p post_request_valid g c show ?thesis
    by simp
qed

section \<open>Rejected bodies write nothing\<close>

text \<open>
  C3. When the body fails validation, a POST on the create endpoint answers 400 with the
  errors and leaves the store as it was; so does a PUT on the detail endpoint of an id
  that is in the store. On an id that is not in the store the lookup comes first: the
  PUT answers 404, and the store is as it was there too.
\<close>

theorem invalid_body_is_atomic:
  assumes "is_valid st (data req) = Inl errs"
  shows "(method req = ''POST'' \<longrightarrow>
            create_user st req = (st, Response (Errors errs) 400)) \<and>
         (method req = ''PUT'' \<and> user_id \<in> id_pk ` set (rows st) \<longrightarrow>
            user_detail st req user_id = (st, Response (Errors errs) 400)) \<and>
         (method req = ''PUT'' \<and> user_id \<notin> id_pk ` set (rows st) \<longrightarrow>
            user_detail st req user_id = (st, Response NoData 404))"
proof (intro conjI impI)
  assume "method req = ''POST''"
  with assms show "create_user st req = (st, Response (Errors errs) 400)"
    by (simp add: create_user_def api_view_def create_user_func_def HTTP_400_BAD_REQUEST_def)
next
  assume put: "method req = ''PUT'' \<and> user_id \<in> id_pk ` set (rows st)"
  then obtain u where u: "objects_get st user_id = Some u"
    using objects_get_present by blast
  with assms put show "user_detail st req user_id = (st, Response (Errors errs) 400)"
    by (simp add: user_detail_def api_view_def user_detail_func_def HTTP_400_BAD_REQUEST_def)
next
  assume put: "method req = ''PUT'' \<and> user_id \<notin> id_pk ` set (rows st)"
  then have "objects_get st user_id = None"
    by (simp add: objects_get_None)
  then have "user_detail_func user_id st req = (st, Some (Response NoData 404))"
    by (rule user_detail_func_not_found)
  with put show "user_detail st req user_id = (st, Response NoData 404)"
    by (simp add: user_detail_def api_view_def)
qed

theorem invalid_body_is_atomic_witness:
  "is_valid seeded_store (data invalid_post) = Inl [(''age'', [invalid]), (''name'', [blank])] \<and>
   is_valid seeded_store (data separators_put) = Inl [(''age'', [invalid])] \<and>
   create_user seeded_store invalid_post =
     (seeded_store, Response (Errors [(''age'', [invalid]), (''name'', [blank])]) 400) \<and>
   user_detail seeded_store invalid_put 1 =
     (seeded_store, Response (Errors [(''age'', [invalid]), (''name'', [blank])]) 400) \<and>
   user_detail seeded_store separators_put 1 =
     (seeded_store, Response (Errors [(''age'', [invalid])]) 400) \<and>
   user_detail seeded_store invalid_put 99 = (seeded_store, Response NoData 404)"
proof -
  have p: "method invalid_post = ''POST''" by (simp add: invalid_post_def)
  have q: "method invalid_put = ''PUT'' \<and> (1::int) \<in> id_pk ` set (rows seeded_store)"
    by (simp add: invalid_put_def seeded_store_def)
  have r: "method separators_put = ''PUT'' \<and> (1::int) \<in> id_pk ` set (rows seeded_store)"
    by (simp add: separators_put_def seeded_store_def)
  have a: "method invalid_put = ''PUT'' \<and> (99::int) \<notin> id_pk ` set (rows seeded_store)"
    by (simp add: invalid_put_def seeded_store_def)
  have e: "is_valid seeded_store (data separators_put) = Inl [(''age'', [invalid])]"
    by code_simp
  from invalid_body_is_atomic [OF invalid_body_errors(1), of 1]
    invalid_body_is_atomic [OF invalid_body_errors(2), of 1]
    invalid_body_is_atomic [OF invalid_body_errors(2), of 99]
    invalid_body_is_atomic [OF e, of 1]
    invalid_body_errors(1) e p q r a
  show ?thesis by simp
qed

section \<open>Unknown ids\<close>

text \<open>
  C4. When no stored row has the requested id, GET, PUT and DELETE on the detail endpoint
  all answer 404 with no body, and the store is unchanged.
\<close>

theorem user_detail_unknown_id:
  assumes "user_id \<notin> id_pk ` set (rows st)"
    and "method req = ''GET'' \<or> method req = ''PUT'' \<or> method req = ''DELETE''"
  shows "user_detail st req user_id = (st, Response NoData 404)"
proof -
  have "objects_get st user_id = None"
    using assms(1) by (simp add: objects_get_None)
  then have func: "user_detail_func user_id st req = (st, Some (Response NoData 404))"
    by (rule user_detail_func_not_found)
  from assms(2) have "method req \<in> set [''GET'', ''PUT'', ''DELETE'']"
    by auto
  with func show ?thesis
    by (simp add: user_detail_def api_view_def)
qed

theorem user_detail_unknown_id_witness:
  "(3::int) \<notin> id_pk ` set (rows seeded_store) \<and>
   (method delete_request = ''GET'' \<or> method delete_request = ''PUT'' \<or>
    method delete_request = ''DELETE'') \<and>
   user_detail seeded_store delete_request 3 = (seeded_store, Response NoData 404)"
proof -
  have absent: "(3::int) \<notin> id_pk ` set (rows seeded_store)"
    by (simp add: seeded_store_def)
  have m: "method delete_request = ''GET'' \<or> method delete_request = ''PUT'' \<or>
      method delete_request = ''DELETE''"
    by (simp add: delete_request_def)
  from user_detail_unknown_id [OF absent m] absent m show ?thesis
    by simp
qed

section \<open>Deleting a user\<close>

text \<open>
  C5. For an id that is in the store, DELETE on the detail endpoint answers 204 with no
  body and removes the row with that id and no other: the table is the old one without
  that row and has one row less. A second DELETE on the same id answers 404.
\<close>

theorem delete_removes_exactly_one:
  assumes "store_inv st"
    and "user_id \<in> id_pk ` set (rows st)"
    and "method req = ''DELETE''"
  shows "user_detail st req user_id =
           (st\<lparr>rows := filter (\<lambda>r. id_pk r \<noteq> user_id) (rows st)\<rparr>, Response NoData 204) \<and>
         length (filter (\<lambda>r. id_pk r \<noteq> user_id) (rows st)) + 1 = length (rows st) \<and>
         user_detail (st\<lparr>rows := filter (\<lambda>r. id_pk r \<noteq> user_id) (rows st)\<rparr>) req user_id =
           (st\<lparr>rows := filter (\<lambda>r. id_pk r \<noteq> user_id) (rows st)\<rparr>, Response NoData 404)"
proof -
  let ?st' = "st\<lparr>rows := filter (\<lambda>r. id_pk r \<noteq> user_id) (rows st)\<rparr>"
  obtain u where u: "objects_get st user_id = Some u" "id_pk u = user_id"
    using objects_get_present [OF assms(2)] by blast
  have first: "user_detail st req user_id = (?st', Response NoData 204)"
    using u assms(3)
    by (simp add: user_detail_def api_view_def user_detail_func_def instance_delete_def
        HTTP_204_NO_CONTENT_def)
  have count: "length (filter (\<lambda>r. id_pk r \<noteq> user_id) (rows st)) + 1 = length (rows st)"
    using assms(1,2) by (intro length_filter_distinct_key) (simp_all add: store_inv_def)
  have "user_id \<notin> id_pk ` set (rows ?st')"
    by auto
  then have "objects_get ?st' user_id = None"
    by (simp only: objects_get_None) simp
  then have "user_detail_func user_id ?st' req = (?st', Some (Response NoData 404))"
    by (rule user_detail_func_not_found)
  then have second: "user_detail ?st' req user_id = (?st', Response NoData 404)"
    using assms(3) by (simp add: user_detail_def api_view_def)
  from first count second show ?thesis by simp
qed

theorem delete_removes_exactly_one_witness:
  "store_inv created_store \<and> (3::int) \<in> id_pk ` set (rows created_store) \<and>
   method delete_request = ''DELETE'' \<and>
   user_detail created_store delete_request 3 = (seeded_store\<lparr>seq := 3\<rparr>, Response NoData 204) \<and>
   user_detail (seeded_store\<lparr>seq := 3\<rparr>) delete_request 3 =
     (seeded_store\<lparr>seq := 3\<rparr>, Response NoData 404)"
proof -
  have i: "store_inv created_store" by code_simp
  have p: "(3::int) \<in> id_pk ` set (rows created_store)" by (simp add: created_store_def)
  have m: "method delete_request = ''DELETE''" by (simp add: delete_request_def)
  have s: "created_store\<lparr>rows := filter (\<lambda>r. id_pk r \<noteq> 3) (rows created_store)\<rparr> =
      seeded_store\<lparr>seq := 3\<rparr>"
    by (simp add: created_store_def seeded_store_def)
  from delete_removes_exactly_one [OF i p m] i p m show ?thesis
    by (simp add: s)
qed

section \<open>Updating a user\<close>

text \<open>
  C6. For an id that is in the store and a body that validation accepts, PUT on the
  detail endpoint answers 200 with the updated object; in the table the row with that id
  has the validated age and name and keeps its place and its id, and every other row is
  as it was.
\<close>

theorem put_overwrites_that_record:
  assumes "user_id \<in> id_pk ` set (rows st)"
    and "method req = ''PUT''"
    and "is_valid st (data req) = Inr (a, n)"
  shows "user_detail st req user_id =
           (st\<lparr>rows := map (\<lambda>r. if id_pk r = user_id
                                  then \<lparr>id_pk = user_id, age = a, name = n\<rparr> else r) (rows st)\<rparr>,
            Response (Data (JObj [(''id'', JInt user_id), (''age'', JInt a), (''name'', JStr n)])) 200)"
proof -
  obtain u where u: "objects_get st user_id = Some u" "id_pk u = user_id"
    using objects_get_present [OF assms(1)] by blast
  have upd: "u\<lparr>age := a, name := n\<rparr> = \<lparr>id_pk = user_id, age = a, name = n\<rparr>"
    using u(2) by simp
  show ?thesis
    using u assms(2,3) upd
    by (simp add: user_detail_def api_view_def user_detail_func_def serializer_update_def
        instance_save_def to_representation_def HTTP_200_OK_def Let_def)
qed

theorem put_overwrites_that_record_witness:
  "(1::int) \<in> id_pk ` set (rows seeded_store) \<and> method put_request = ''PUT'' \<and>
   is_valid seeded_store (data put_request) = Inr (26, ''Updated User'') \<and>
   user_detail seeded_store put_request 1 =
     (seeded_store\<lparr>rows := [\<lparr>id_pk = 1, age = 26, name = ''Updated User''\<rparr>,
                             \<lparr>id_pk = 2, age = 2, name = ''B''\<rparr>]\<rparr>,
      Response (Data (JObj [(''id'', JInt 1), (''age'', JInt 26),
                            (''name'', JStr ''Updated User'')])) 200)"
proof -
  have p: "(1::int) \<in> id_pk ` set (rows seeded_store)" by (simp add: seeded_store_def)
  have m: "method put_request = ''PUT''" by (simp add: put_request_def)
  have r: "rows seeded_store = [\<lparr>id_pk = 1, age = 1, name = ''A''\<rparr>, \<lparr>id_pk = 2, age = 2, name = ''B''\<rparr>]"
    by (simp add: seeded_store_def)
  from put_overwrites_that_record [OF p m put_request_valid] p m put_request_valid r
  show ?thesis by simp
qed

section \<open>Creating a user\<close>

text \<open>
  C7. For a body that validation accepts, POST on the create endpoint answers 201 with
  the object of the new row, the id the store generated included; the table is the old
  one with that single row appended, and the id was not in use before.
\<close>

theorem create_persists_one_record:
  assumes "store_inv st"
    and "method req = ''POST''"
    and "is_valid st (data req) = Inr (a, n)"
  shows "create_user st req =
           (st\<lparr>rows := rows st @ [\<lparr>id_pk = seq st + 1, age = a, name = n\<rparr>], seq := seq st + 1\<rparr>,
            Response (Data (JObj [(''id'', JInt (seq st + 1)), (''age'', JInt a),
                                  (''name'', JStr n)])) 201) \<and>
         seq st + 1 \<notin> id_pk ` set (rows st)"
proof -
  have fresh: "seq st + 1 \<notin> id_pk ` set (rows st)"
    using assms(1) by (auto simp: store_inv_def list_all_iff)
  have "create_user st req =
          (st\<lparr>rows := rows st @ [\<lparr>id_pk = seq st + 1, age = a, name = n\<rparr>], seq := seq st + 1\<rparr>,
           Response (Data (JObj [(''id'', JInt (seq st + 1)), (''age'', JInt a),
                                 (''name'', JStr n)])) 201)"
    using assms(2,3)
    by (simp add: create_user_def api_view_def create_user_func_def serializer_create_def
        objects_create_def to_representation_def HTTP_201_CREATED_def Let_def)
  with fresh show ?thesis by simp
qed

theorem create_persists_one_record_witness:
  "store_inv seeded_store \<and> method post_request = ''POST'' \<and>
   is_valid seeded_store (data post_request) = Inr (3, ''C'') \<and>
   create_user seeded_store post_request =
     (created_store,
      Response (Data (JObj [(''id'', JInt 3), (''age'', JInt 3), (''name'', JStr ''C'')])) 201)"
proof -
  have m: "method post_request = ''POST''" by (simp add: post_request_def)
  have s: "seeded_store\<lparr>rows := rows seeded_store @ [\<lparr>id_pk = seq seeded_store + 1, age = 3, name = ''C''\<rparr>],
      seq := seq seeded_store + 1\<rparr> = created_store"
    by (simp add: created_store_def seeded_store_def)
  have q: "seq seeded_store + 1 = 3" by (simp add: seeded_store_def)
  from create_persists_one_record [OF seeded_store_inv m post_request_valid]
    seeded_store_inv m post_request_valid s q
  show ?thesis by simp
qed

section \<open>Listing the users\<close>

text \<open>
  C8. For every state of the store, GET on the list endpoint answers 200 with the array
  that holds the serialized form of each stored row, one entry per row (the empty array
  for the empty table), and leaves the store as it was.
\<close>

theorem get_users_lists_all_records:
  "method req = ''GET'' \<Longrightarrow>
   get_users st req = (st, Response (Data (JList (map to_representation (rows st)))) 200)"
  by (simp add: get_users_def api_view_def get_users_func_def objects_all_def HTTP_200_OK_def)

theorem get_users_lists_all_records_witness:
  "method get_request = ''GET'' \<and>
   get_users seeded_store get_request =
     (seeded_store,
      Response (Data (JList [JObj [(''id'', JInt 1), (''age'', JInt 1), (''name'', JStr ''A'')],
                             JObj [(''id'', JInt 2), (''age'', JInt 2), (''name'', JStr ''B'')]])) 200)"
proof -
  have m: "method get_request = ''GET''"
    by (simp add: get_request_def)
  from get_users_lists_all_records [OF m, of seeded_store] m show ?thesis
    by (simp add: seeded_store_def to_representation_def)
qed

section \<open>The data-model invariant\<close>

text \<open>
  C9. Every request to one of the three endpoints, whatever its method and body, takes a
  store that satisfies the data-model invariant (unique ids handed out by the store,
  names of 1 to 100 characters, ages the integer column can hold) to a store that
  satisfies it. A PUT leaves the list of ids as it was, whatever \<open>id\<close> its body may
  carry, and the only id a request can add is the next one of the store's sequence.
\<close>

theorem requests_preserve_invariant:
  assumes "store_inv st"
  shows "store_inv (fst (urlpatterns p st req)) \<and>
         (method req = ''PUT'' \<longrightarrow>
            map id_pk (rows (fst (urlpatterns p st req))) = map id_pk (rows st)) \<and>
         set (map id_pk (rows (fst (urlpatterns p st req))))
           \<subseteq> insert (seq st + 1) (set (map id_pk (rows st)))"
proof (cases p)
  case Users
  with assms show ?thesis
    by (auto simp: urlpatterns_def get_users_store)
next
  case UsersCreate
  have put: "method req = ''PUT'' \<Longrightarrow> fst (create_user st req) = st"
    by (simp add: create_user_def api_view_def)
  from create_user_store [of st req] show ?thesis
  proof
    assume "fst (create_user st req) = st"
    with assms UsersCreate show ?thesis
      by (auto simp: urlpatterns_def)
  next
    assume "\<exists>a n. is_valid st (data req) = Inr (a, n) \<and>
      fst (create_user st req) =
        st\<lparr>rows := rows st @ [\<lparr>id_pk = seq st + 1, age = a, name = n\<rparr>], seq := seq st + 1\<rparr>"
    then obtain a n where v: "is_valid st (data req) = Inr (a, n)"
      and s: "fst (create_user st req) =
        st\<lparr>rows := rows st @ [\<lparr>id_pk = seq st + 1, age = a, name = n\<rparr>], seq := seq st + 1\<rparr>"
      by blast
    have "store_inv (fst (create_user st req))"
      unfolding s using assms v by (rule store_inv_create)
    moreover have "set (map id_pk (rows (fst (create_user st req))))
        \<subseteq> insert (seq st + 1) (set (map id_pk (rows st)))"
      unfolding s by auto
    ultimately show ?thesis
      using UsersCreate put by (auto simp: urlpatterns_def)
  qed
next
  case (UsersDetail k)
  let ?st' = "fst (user_detail st req (int k))"
  from user_detail_store [of st req "int k"]
  have "store_inv ?st' \<and>
      (method req = ''PUT'' \<longrightarrow> map id_pk (rows ?st') = map id_pk (rows st)) \<and>
      set (map id_pk (rows ?st')) \<subseteq> insert (seq st + 1) (set (map id_pk (rows st)))"
  proof (elim disjE exE conjE)
    assume "?st' = st"
    with assms show ?thesis by auto
  next
    fix a n
    assume v: "is_valid st (data req) = Inr (a, n)" and i: "int k \<in> id_pk ` set (rows st)"
      and s: "?st' = st\<lparr>rows := map (\<lambda>r. if id_pk r = int k
                then \<lparr>id_pk = int k, age = a, name = n\<rparr> else r) (rows st)\<rparr>"
    have "store_inv ?st'"
      unfolding s using assms v i by (rule store_inv_update)
    moreover have same: "map id_pk (rows ?st') = map id_pk (rows st)"
      unfolding s using map_id_pk_update [of "int k" a n "rows st"] by simp
    moreover have "set (map id_pk (rows ?st')) \<subseteq> insert (seq st + 1) (set (map id_pk (rows st)))"
      unfolding same by auto
    ultimately show ?thesis by blast
  next
    assume m: "method req = ''DELETE''"
      and s: "?st' = st\<lparr>rows := filter (\<lambda>r. id_pk r \<noteq> int k) (rows st)\<rparr>"
    have "store_inv ?st'"
      unfolding s using assms by (rule store_inv_delete)
    moreover have "set (map id_pk (rows ?st')) \<subseteq> insert (seq st + 1) (set (map id_pk (rows st)))"
      unfolding s by auto
    ultimately show ?thesis using m by simp
  qed
  with UsersDetail show ?thesis
    by (simp add: urlpatterns_def)
qed

theorem requests_preserve_invariant_witness:
  "store_inv seeded_store \<and>
   store_inv (fst (urlpatterns (UsersDetail 1) seeded_store put_request)) \<and>
   map id_pk (rows (fst (urlpatterns (UsersDetail 1) seeded_store put_request))) = [1, 2]"
proof -
  have m: "method put_request = ''PUT''" by (simp add: put_request_def)
  have r: "map id_pk (rows seeded_store) = [1, 2]" by (simp add: seeded_store_def)
  from requests_preserve_invariant [OF seeded_store_inv, of "UsersDetail 1" put_request]
    seeded_store_inv m r
  show ?thesis by simp
qed

section \<open>Methods outside the allowed set\<close>

text \<open>
  C10, as the decorator implements it. A request whose method is outside the set its
  endpoint allows leaves the store unchanged; it is answered with 405, except for
  OPTIONS, which every endpoint answers with 200 and the description of the view.
\<close>

theorem method_outside_allowed_set:
  "(method req \<noteq> ''GET'' \<longrightarrow>
      urlpatterns Users st req =
        (st, if method req = ''OPTIONS'' then Response Metadata 200
             else Response (Detail method_not_allowed) 405)) \<and>
   (method req \<noteq> ''POST'' \<longrightarrow>
      urlpatterns UsersCreate st req =
        (st, if method req = ''OPTIONS'' then Response Metadata 200
             else Response (Detail method_not_allowed) 405)) \<and>
   (method req \<noteq> ''GET'' \<and> method req \<noteq> ''PUT'' \<and> method req \<noteq> ''DELETE'' \<longrightarrow>
      urlpatterns (UsersDetail k) st req =
        (st, if method req = ''OPTIONS'' then Response Metadata 200
             else Response (Detail method_not_allowed) 405))"
  by (simp add: urlpatterns_def get_users_def create_user_def user_detail_def api_view_def
      HTTP_200_OK_def HTTP_405_METHOD_NOT_ALLOWED_def)

theorem method_outside_allowed_set_witness:
  "method patch_request \<noteq> ''GET'' \<and> method patch_request \<noteq> ''PUT'' \<and>
   method patch_request \<noteq> ''DELETE'' \<and> method patch_request \<noteq> ''POST'' \<and>
   urlpatterns Users seeded_store patch_request =
     (seeded_store, Response (Detail method_not_allowed) 405) \<and>
   urlpatterns UsersCreate seeded_store patch_request =
     (seeded_store, Response (Detail method_not_allowed) 405) \<and>
   urlpatterns (UsersDetail 1) seeded_store patch_request =
     (seeded_store, Response (Detail method_not_allowed) 405)"
proof -
  have m: "method patch_request = ''PATCH''"
    by (simp add: patch_request_def)
  from method_outside_allowed_set [of patch_request seeded_store 1] m show ?thesis
    by simp
qed

text \<open>
  OPTIONS is not among the methods declared for the list endpoint, and is answered
  with 200.
\<close>

theorem options_is_answered_counterexample:
  "method \<lparr>method = ''OPTIONS'', data = JNull\<rparr> \<noteq> ''GET'' \<and>
   urlpatterns Users seeded_store \<lparr>method = ''OPTIONS'', data = JNull\<rparr> =
     (seeded_store, Response Metadata 200)"
  by (simp add: urlpatterns_def get_users_def api_view_def HTTP_200_OK_def)

end
